theory Spec2Isabelle
  imports Complex_Main
begin

section \<open>HomeEyeView: the surveillance controller of \<^verbatim>\<open>app.py\<close>\<close>

text \<open>
  The development embeds class \<^verbatim>\<open>SurveillanceSystem\<close> of \<^verbatim>\<open>src/app.py\<close>. Every method is
  a function from the object's state to the new state and the method's outcome. What
  the method reads from outside the object (the platform flags set at import time, the
  clock, the camera, the video writer) is an explicit argument. The Flask routes only
  hand request values to these methods and are not embedded. Each call is embedded as a
  whole. Another thread is observed in two places: in the capture loop, which reads the
  flag \<^verbatim>\<open>is_recording\<close> anew in every pass, and between the test and the assignment
  of the flag in \<^verbatim>\<open>start_recording\<close>, for which two calls are run step by step.
\<close>

subsection \<open>Python values and exceptions\<close>

text \<open>
  Values that reach the methods from a decoded JSON request body. A Python float is
  finite here and is read as the real number it denotes.
\<close>

datatype jvalue =
    JNull
  | JBool bool
  | JInt int
  | JFloat real
  | JStr string
  | JArr "jvalue list"
  | JObj "(string \<times> jvalue) list"

text \<open>The exception classes that occur; all of them derive from \<^verbatim>\<open>Exception\<close>.\<close>

datatype exn =
    Exception string
  | TypeError
  | ValueError
  | OverflowError
  | OSError
  | RuntimeError
  | cv2_error

text \<open>The truth value of an object, as \<^verbatim>\<open>if duration and ...\<close> tests it.\<close>

fun truthy :: "jvalue \<Rightarrow> bool" where
  "truthy JNull = False"
| "truthy (JBool b) = b"
| "truthy (JInt n) = (n \<noteq> 0)"
| "truthy (JFloat x) = (x \<noteq> 0)"
| "truthy (JStr s) = (s \<noteq> [])"
| "truthy (JArr xs) = (xs \<noteq> [])"
| "truthy (JObj kvs) = (kvs \<noteq> [])"

text \<open>The number a value denotes in a comparison with a float; \<^verbatim>\<open>bool\<close> is a subclass of \<^verbatim>\<open>int\<close>.\<close>

fun number_of :: "jvalue \<Rightarrow> real option" where
  "number_of (JBool b) = Some (if b then 1 else 0)"
| "number_of (JInt n) = Some (of_int n)"
| "number_of (JFloat x) = Some x"
| "number_of _ = None"

text \<open>\<^verbatim>\<open>x >= v\<close> for a float \<^verbatim>\<open>x\<close>: a \<^verbatim>\<open>TypeError\<close> when \<^verbatim>\<open>v\<close> is not a number.\<close>

definition float_ge :: "real \<Rightarrow> jvalue \<Rightarrow> exn + bool" where
  "float_ge x v = (case number_of v of None \<Rightarrow> Inl TypeError | Some c \<Rightarrow> Inr (c \<le> x))"

subsection \<open>The object state\<close>

datatype adapter = PiCameraAdapter | OpenCVCameraAdapter | SyntheticCameraAdapter

text \<open>
  A \<^verbatim>\<open>threading.Thread\<close> with target \<^verbatim>\<open>_record_video\<close>: its two arguments, and whether
  \<^verbatim>\<open>start()\<close> has succeeded on it.
\<close>

record thread =
  arg_filepath :: string
  arg_duration :: jvalue
  started :: bool

text \<open>An entry of the storage directory.\<close>

datatype kind = Dir | File

text \<open>A control dictionary handed to \<^verbatim>\<open>Picamera2.set_controls\<close>.\<close>

datatype control = Brightness real | Contrast real | AwbEnable bool

text \<open>
  The fields of \<^verbatim>\<open>SurveillanceSystem\<close>, followed by the parts of the outside world its
  methods change: the entries of the directory \<^verbatim>\<open>video_storage_path\<close>, the threads
  started so far, and the controls the camera has accepted.
\<close>

record surveillance =
  camera_adapter :: "adapter option"
  is_recording :: bool
  recording_thread :: "thread option"
  motion_detection_enabled :: bool
  pir_pin :: int
  recording_duration :: int
  video_storage_path :: string
  auto_delete_days :: int
  camera_settings :: "string \<rightharpoonup> jvalue"
  archive :: "(string \<times> kind) list"
  threads_started :: "thread list"
  controls_applied :: "control list"

text \<open>The messages of the \<^verbatim>\<open>(success, message)\<close> results, by format string.\<close>

datatype message =
    Already_recording
  | Recording_started string
  | Recording_failed exn
  | Not_currently_recording
  | Recording_stopped
  | Updated jvalue jvalue
  | Invalid_setting jvalue
  | Failed_to_update jvalue exn
  | Deleted_old_recording_folders nat
  | Cleanup_failed exn

text \<open>A method's outcome: \<open>Inl e\<close> when exception \<open>e\<close> leaves the method, \<open>Inr r\<close> when it returns \<open>r\<close>.\<close>

type_synonym 'a outcome = "exn + 'a"

subsection \<open>The platform\<close>

text \<open>
  What the methods observe of the platform. \<open>PICAMERA_AVAILABLE\<close> is the module
  constant set by the guarded import. \<open>picamera_init_error\<close> is the exception raised
  by \<^verbatim>\<open>PiCameraAdapter.__init__\<close>, if any; \<open>capture_is_opened\<close> is
  \<^verbatim>\<open>cv2.VideoCapture(0).isOpened()\<close>. \<open>has_set_controls\<close> is
  \<^verbatim>\<open>hasattr(camera, 'set_controls')\<close> and \<open>set_controls_error\<close> the exception
  \<^verbatim>\<open>set_controls\<close> raises on a control dictionary, if any. \<open>float_of_str\<close> is the
  builtin \<^verbatim>\<open>float\<close> on a string, \<open>None\<close> where it raises \<^verbatim>\<open>ValueError\<close>.
  \<open>strftime_stamp\<close> and \<open>strftime_date\<close> are the clock read and formatted with
  \<^verbatim>\<open>%Y%m%d_%H%M%S\<close> and \<^verbatim>\<open>%Y-%m-%d\<close>; \<open>thread_start_error\<close> is the exception
  \<^verbatim>\<open>Thread.start\<close> raises, if any.
\<close>

record platform =
  PICAMERA_AVAILABLE :: bool
  picamera_init_error :: "exn option"
  capture_is_opened :: bool
  has_set_controls :: bool
  set_controls_error :: "control \<Rightarrow> exn option"
  float_of_str :: "string \<Rightarrow> real option"
  strftime_stamp :: string
  strftime_date :: string
  thread_start_error :: "exn option"

subsection \<open>\<^verbatim>\<open>update_camera_setting\<close>\<close>

text \<open>
  \<^verbatim>\<open>setting in self.camera_settings\<close>: the keys of the dictionary are strings, so a
  hashable value that is not a string is not among them, and an unhashable one (a list
  or a dict) raises \<^verbatim>\<open>TypeError\<close>.
\<close>

fun setting_in :: "jvalue \<Rightarrow> (string \<rightharpoonup> jvalue) \<Rightarrow> exn + bool" where
  "setting_in (JStr k) m = Inr (m k \<noteq> None)"
| "setting_in (JArr xs) m = Inl TypeError"
| "setting_in (JObj kvs) m = Inl TypeError"
| "setting_in v m = Inr False"

text \<open>\<^verbatim>\<open>self.camera_settings[setting] = value\<close>, reached only with a key of the dictionary.\<close>

fun store_setting :: "jvalue \<Rightarrow> jvalue \<Rightarrow> (string \<rightharpoonup> jvalue) \<Rightarrow> (string \<rightharpoonup> jvalue)" where
  "store_setting (JStr k) v m = m(k \<mapsto> v)"
| "store_setting other v m = m"

text \<open>
  An integer as the nearest double, ties to the even mantissa: integers of up to 53 bits
  are kept, longer ones keep their leading 53 bits, rounded.
\<close>

fun bit_length :: "nat \<Rightarrow> nat" where
  "bit_length n = (if n = 0 then 0 else Suc (bit_length (n div 2)))"

declare bit_length.simps [simp del]

definition round_to_double :: "int \<Rightarrow> int" where
  "round_to_double n =
     (let a = nat \<bar>n\<bar>
      in if bit_length a \<le> 53 then n
         else
           (let e = bit_length a - 53;
                q = a div 2 ^ e;
                r = a mod 2 ^ e;
                half = 2 ^ (e - 1);
                q' = (if half < r \<or> (r = half \<and> odd q) then q + 1 else q)
            in sgn n * int (q' * 2 ^ e)))"

text \<open>
  The builtin \<^verbatim>\<open>float(value)\<close>: \<^verbatim>\<open>TypeError\<close> on \<^verbatim>\<open>None\<close>, lists and dicts,
  \<^verbatim>\<open>ValueError\<close> on a string that is no number, \<^verbatim>\<open>OverflowError\<close> on an integer
  that rounds beyond the largest double, and the nearest double otherwise. The result
  only travels on to \<^verbatim>\<open>set_controls\<close>.
\<close>

fun py_float :: "platform \<Rightarrow> jvalue \<Rightarrow> exn + real" where
  "py_float env JNull = Inl TypeError"
| "py_float env (JBool b) = Inr (if b then 1 else 0)"
| "py_float env (JInt n) =
     (if \<bar>n\<bar> < 2 ^ 1024 - 2 ^ 970 then Inr (of_int (round_to_double n))
      else Inl OverflowError)"
| "py_float env (JFloat x) = Inr x"
| "py_float env (JStr s) = (case float_of_str env s of None \<Rightarrow> Inl ValueError | Some x \<Rightarrow> Inr x)"
| "py_float env (JArr xs) = Inl TypeError"
| "py_float env (JObj kvs) = Inl TypeError"

definition set_controls :: "platform \<Rightarrow> control \<Rightarrow> surveillance \<Rightarrow> exn + surveillance" where
  "set_controls env c s =
     (case set_controls_error env c of
        Some e \<Rightarrow> Inl e
      | None \<Rightarrow> Inr (s\<lparr>controls_applied := controls_applied s @ [c]\<rparr>))"

text \<open>Lines 276 to 289: the new value is applied to the Pi camera, when there is one.\<close>

definition apply_to_camera :: "platform \<Rightarrow> jvalue \<Rightarrow> jvalue \<Rightarrow> surveillance \<Rightarrow> exn + surveillance" where
  "apply_to_camera env setting v s =
     (if PICAMERA_AVAILABLE env \<and> camera_adapter s = Some PiCameraAdapter \<and> has_set_controls env
      then
        if setting = JStr ''brightness'' then
          (case py_float env v of Inl e \<Rightarrow> Inl e | Inr x \<Rightarrow> set_controls env (Brightness x) s)
        else if setting = JStr ''contrast'' then
          (case py_float env v of Inl e \<Rightarrow> Inl e | Inr x \<Rightarrow> set_controls env (Contrast x) s)
        else if setting = JStr ''white_balance'' then
          (if v = JStr ''auto'' then set_controls env (AwbEnable True) s
           else set_controls env (AwbEnable False) s)
        else Inr s
      else Inr s)"

definition update_camera_setting ::
  "platform \<Rightarrow> jvalue \<Rightarrow> jvalue \<Rightarrow> surveillance \<Rightarrow> surveillance \<times> (bool \<times> message) outcome" where
  "update_camera_setting env setting v s =
     (case setting_in setting (camera_settings s) of
        Inl e \<Rightarrow> (s, Inr (False, Failed_to_update setting e))
      | Inr False \<Rightarrow> (s, Inr (False, Invalid_setting setting))
      | Inr True \<Rightarrow>
          (let s1 = s\<lparr>camera_settings := store_setting setting v (camera_settings s)\<rparr>
           in case apply_to_camera env setting v s1 of
                Inl e \<Rightarrow> (s1, Inr (False, Failed_to_update setting e))
              | Inr s2 \<Rightarrow> (s2, Inr (True, Updated setting v))))"

subsection \<open>\<^verbatim>\<open>init_camera\<close>\<close>

text \<open>
  The three constructors. \<^verbatim>\<open>PiCameraAdapter.__init__\<close> opens and starts the Pi camera,
  which may raise; \<^verbatim>\<open>OpenCVCameraAdapter.__init__\<close> raises when the capture device is
  not opened; \<^verbatim>\<open>SyntheticCameraAdapter.__init__\<close> sets a counter and prints.
\<close>

definition PiCameraAdapter_init :: "platform \<Rightarrow> exn + adapter" where
  "PiCameraAdapter_init env =
     (case picamera_init_error env of Some e \<Rightarrow> Inl e | None \<Rightarrow> Inr PiCameraAdapter)"

definition OpenCVCameraAdapter_init :: "platform \<Rightarrow> exn + adapter" where
  "OpenCVCameraAdapter_init env =
     (if capture_is_opened env then Inr OpenCVCameraAdapter
      else Inl (Exception ''Failed to open camera''))"

definition SyntheticCameraAdapter_init :: "exn + adapter" where
  "SyntheticCameraAdapter_init = Inr SyntheticCameraAdapter"

text \<open>
  The body of the outer \<^verbatim>\<open>try\<close> (lines 156 to 164), with its inner \<^verbatim>\<open>try\<close> around the
  OpenCV constructor.
\<close>

definition init_camera_body :: "platform \<Rightarrow> surveillance \<Rightarrow> surveillance \<times> unit outcome" where
  "init_camera_body env s =
     (if PICAMERA_AVAILABLE env then
        (case PiCameraAdapter_init env of
           Inl e \<Rightarrow> (s, Inl e)
         | Inr a \<Rightarrow> (s\<lparr>camera_adapter := Some a\<rparr>, Inr ()))
      else
        (case OpenCVCameraAdapter_init env of
           Inr a \<Rightarrow> (s\<lparr>camera_adapter := Some a\<rparr>, Inr ())
         | Inl e \<Rightarrow>
             (case SyntheticCameraAdapter_init of
                Inl e' \<Rightarrow> (s, Inl e')
              | Inr a \<Rightarrow> (s\<lparr>camera_adapter := Some a\<rparr>, Inr ()))))"

text \<open>The handler of the outer \<^verbatim>\<open>try\<close> (lines 166 to 169) constructs the synthetic adapter.\<close>

definition init_camera :: "platform \<Rightarrow> surveillance \<Rightarrow> surveillance \<times> unit outcome" where
  "init_camera env s =
     (case init_camera_body env s of
        (s1, Inr u) \<Rightarrow> (s1, Inr u)
      | (s1, Inl e) \<Rightarrow>
          (case SyntheticCameraAdapter_init of
             Inl e' \<Rightarrow> (s1, Inl e')
           | Inr a \<Rightarrow> (s1\<lparr>camera_adapter := Some a\<rparr>, Inr ())))"

text \<open>The fields as \<^verbatim>\<open>__init__\<close> assigns them (lines 124 to 141), before \<^verbatim>\<open>init_camera\<close>.\<close>

definition initial_fields :: surveillance where
  "initial_fields =
     \<lparr>camera_adapter = None,
      is_recording = False,
      recording_thread = None,
      motion_detection_enabled = False,
      pir_pin = 18,
      recording_duration = 180,
      video_storage_path = ''recordings'',
      auto_delete_days = 7,
      camera_settings =
        [''brightness'' \<mapsto> JInt 0, ''contrast'' \<mapsto> JFloat 1, ''zoom'' \<mapsto> JFloat 1,
         ''white_balance'' \<mapsto> JStr ''auto'', ''exposure_mode'' \<mapsto> JStr ''auto'',
         ''focus'' \<mapsto> JStr ''auto''],
      archive = [],
      threads_started = [],
      controls_applied = []\<rparr>"

definition SurveillanceSystem_init :: "platform \<Rightarrow> surveillance \<times> unit outcome" where
  "SurveillanceSystem_init env = init_camera env initial_fields"

text \<open>The keys of \<^verbatim>\<open>camera_settings\<close>; no method adds or removes one.\<close>

definition setting_keys :: "string set" where
  "setting_keys =
     {''brightness'', ''contrast'', ''zoom'', ''white_balance'', ''exposure_mode'', ''focus''}"

subsection \<open>\<^verbatim>\<open>start_recording\<close>, \<^verbatim>\<open>stop_recording\<close>, \<^verbatim>\<open>motion_detected\<close>\<close>

text \<open>\<^verbatim>\<open>os.path.join\<close> of two components on POSIX.\<close>

definition path_join :: "string \<Rightarrow> string \<Rightarrow> string" where
  "path_join a b =
     (if (case b of [] \<Rightarrow> False | c # cs \<Rightarrow> c = CHR ''/'') then b
      else if a = [] \<or> last a = CHR ''/'' then a @ b
      else a @ ''/'' @ b)"

text \<open>
  \<^verbatim>\<open>os.makedirs(folder_path, exist_ok=True)\<close> for a folder directly under the storage
  directory: an existing directory is accepted, an existing file is an \<^verbatim>\<open>OSError\<close>
  (\<^verbatim>\<open>FileExistsError\<close>).
\<close>

definition makedirs :: "string \<Rightarrow> (string \<times> kind) list \<Rightarrow> exn + (string \<times> kind) list" where
  "makedirs name fs =
     (case map_of fs name of
        None \<Rightarrow> Inr (fs @ [(name, Dir)])
      | Some Dir \<Rightarrow> Inr fs
      | Some File \<Rightarrow> Inl OSError)"

text \<open>
  \<^verbatim>\<open>start_recording\<close>, one call from its first line to its return. The flag is tested on
  line 199 and assigned on line 203, in two statements; the method takes no lock. The
  handler of line 220 turns every exception of the \<^verbatim>\<open>try\<close> block into a \<^verbatim>\<open>False\<close> result
  and clears the flag again.
\<close>

definition start_recording ::
  "platform \<Rightarrow> jvalue \<Rightarrow> string \<Rightarrow> surveillance \<Rightarrow> surveillance \<times> (bool \<times> message) outcome" where
  "start_recording env duration trigger s =
     (if is_recording s then (s, Inr (False, Already_recording))
      else
        (let s1 = s\<lparr>is_recording := True\<rparr>;
             timestamp = strftime_stamp env;
             date_folder = strftime_date env;
             folder_path = path_join (video_storage_path s1) date_folder
         in case makedirs date_folder (archive s1) of
              Inl e \<Rightarrow> (s1\<lparr>is_recording := False\<rparr>, Inr (False, Recording_failed e))
            | Inr fs \<Rightarrow>
                (let s2 = s1\<lparr>archive := fs\<rparr>;
                     filename = trigger @ ''_'' @ timestamp @ ''.mp4'';
                     filepath = path_join folder_path filename;
                     t = \<lparr>arg_filepath = filepath, arg_duration = duration, started = False\<rparr>;
                     s3 = s2\<lparr>recording_thread := Some t\<rparr>
                 in case thread_start_error env of
                      Some e \<Rightarrow> (s3\<lparr>is_recording := False\<rparr>, Inr (False, Recording_failed e))
                    | None \<Rightarrow>
                        (s3\<lparr>recording_thread := Some (t\<lparr>started := True\<rparr>),
                            threads_started := threads_started s3 @ [t\<lparr>started := True\<rparr>]\<rparr>,
                         Inr (True, Recording_started filename)))))"

text \<open>
  \<^verbatim>\<open>join(timeout=5)\<close> changes no field; on a thread that was never started it raises
  \<^verbatim>\<open>RuntimeError\<close>, which \<^verbatim>\<open>stop_recording\<close> does not catch.
\<close>

definition stop_recording :: "surveillance \<Rightarrow> surveillance \<times> (bool \<times> message) outcome" where
  "stop_recording s =
     (if \<not> is_recording s then (s, Inr (False, Not_currently_recording))
      else
        (let s1 = s\<lparr>is_recording := False\<rparr>
         in case recording_thread s1 of
              None \<Rightarrow> (s1, Inr (True, Recording_stopped))
            | Some t \<Rightarrow>
                if started t then (s1, Inr (True, Recording_stopped))
                else (s1, Inl RuntimeError)))"

text \<open>
  The PIR callback. The channel (the pin number, or \<^verbatim>\<open>None\<close> from the simulation route) is
  not used, and the result of \<^verbatim>\<open>start_recording\<close> is dropped.
\<close>

definition motion_detected ::
  "platform \<Rightarrow> int option \<Rightarrow> surveillance \<Rightarrow> surveillance \<times> unit outcome" where
  "motion_detected env channel s =
     (if motion_detection_enabled s \<and> \<not> is_recording s
      then (fst (start_recording env (JInt (recording_duration s)) ''motion'' s), Inr ())
      else (s, Inr ()))"

subsection \<open>Two calls of \<^verbatim>\<open>start_recording\<close> at once\<close>

text \<open>
  \<^verbatim>\<open>start_recording\<close> is called from the request threads and from the thread of the PIR
  callback. Python may switch threads between two statements, and the method holds no
  lock, so a second call can run between the test of line 199 and the \<^verbatim>\<open>try\<close> block
  that follows it. A call therefore proceeds in two steps: the test, which either returns
  the declined result or passes, and the rest of the method.
\<close>

text \<open>Lines 202 to 222: the method after a test that found the flag clear.\<close>

definition start_recording_rest ::
  "platform \<Rightarrow> jvalue \<Rightarrow> string \<Rightarrow> surveillance \<Rightarrow> surveillance \<times> (bool \<times> message) outcome" where
  "start_recording_rest env duration trigger s =
     (let s1 = s\<lparr>is_recording := True\<rparr>;
          timestamp = strftime_stamp env;
          date_folder = strftime_date env;
          folder_path = path_join (video_storage_path s1) date_folder
      in case makedirs date_folder (archive s1) of
           Inl e \<Rightarrow> (s1\<lparr>is_recording := False\<rparr>, Inr (False, Recording_failed e))
         | Inr fs \<Rightarrow>
             (let s2 = s1\<lparr>archive := fs\<rparr>;
                  filename = trigger @ ''_'' @ timestamp @ ''.mp4'';
                  filepath = path_join folder_path filename;
                  t = \<lparr>arg_filepath = filepath, arg_duration = duration, started = False\<rparr>;
                  s3 = s2\<lparr>recording_thread := Some t\<rparr>
              in case thread_start_error env of
                   Some e \<Rightarrow> (s3\<lparr>is_recording := False\<rparr>, Inr (False, Recording_failed e))
                 | None \<Rightarrow>
                     (s3\<lparr>recording_thread := Some (t\<lparr>started := True\<rparr>),
                         threads_started := threads_started s3 @ [t\<lparr>started := True\<rparr>]\<rparr>,
                      Inr (True, Recording_started filename))))"

text \<open>
  Where a call stands: before the test of line 199, past it, or returned with its result.
\<close>

datatype call = Before_test | Past_test | Returned "(bool \<times> message) outcome"

text \<open>One step of a call with the given platform reading, duration and trigger.\<close>

fun call_step ::
  "platform \<times> jvalue \<times> string \<Rightarrow> call \<Rightarrow> surveillance \<Rightarrow> call \<times> surveillance" where
  "call_step (env, duration, trigger) Before_test s =
     (if is_recording s then (Returned (Inr (False, Already_recording)), s)
      else (Past_test, s))"
| "call_step (env, duration, trigger) Past_test s =
     (case start_recording_rest env duration trigger s of (s', r) \<Rightarrow> (Returned r, s'))"
| "call_step (env, duration, trigger) (Returned r) s = (Returned r, s)"

text \<open>
  Two calls on the one object, and a schedule that says which of them takes the next step.
\<close>

datatype caller = First | Second

fun interleave ::
  "platform \<times> jvalue \<times> string \<Rightarrow> platform \<times> jvalue \<times> string \<Rightarrow> caller list \<Rightarrow>
   call \<times> call \<times> surveillance \<Rightarrow> call \<times> call \<times> surveillance" where
  "interleave a b [] cfg = cfg"
| "interleave a b (First # schedule) (ca, cb, s) =
     (case call_step a ca s of (ca', s') \<Rightarrow> interleave a b schedule (ca', cb, s'))"
| "interleave a b (Second # schedule) (ca, cb, s) =
     (case call_step b cb s of (cb', s') \<Rightarrow> interleave a b schedule (ca, cb', s'))"

subsection \<open>\<^verbatim>\<open>get_frame\<close> and the capture loop of \<^verbatim>\<open>_record_video\<close>\<close>

text \<open>A frame is its pixels, three channels each.\<close>

type_synonym frame = "(nat \<times> nat \<times> nat) list"

definition COLOR_RGB2BGR :: "frame \<Rightarrow> frame" where
  "COLOR_RGB2BGR f = map (\<lambda>(r, g, b). (b, g, r)) f"

fun is_bgr_format :: "adapter \<Rightarrow> bool" where
  "is_bgr_format PiCameraAdapter = False"
| "is_bgr_format OpenCVCameraAdapter = True"
| "is_bgr_format SyntheticCameraAdapter = True"

text \<open>
  What one pass through the loop body observes. \<open>stop_requested\<close>: another thread has
  run line 263 of \<^verbatim>\<open>stop_recording\<close> since the previous test of the loop condition.
  \<open>adapter_frame\<close>: what \<^verbatim>\<open>camera_adapter.get_frame()\<close> does, an exception or a frame or
  \<^verbatim>\<open>None\<close>. \<open>cvtColor_error\<close> and \<open>write_error\<close>: the exception \<^verbatim>\<open>cv2.cvtColor\<close> or
  \<^verbatim>\<open>out.write\<close> raises, if any. \<open>elapsed\<close>: the value of
  \<^verbatim>\<open>time.time() - start_time\<close> on line 245.
\<close>

record tick =
  stop_requested :: bool
  adapter_frame :: "exn + frame option"
  cvtColor_error :: "exn option"
  write_error :: "exn option"
  elapsed :: real

text \<open>\<^verbatim>\<open>get_frame\<close> catches what the adapter raises and returns \<^verbatim>\<open>None\<close> then.\<close>

definition get_frame :: "surveillance \<Rightarrow> tick \<Rightarrow> frame option" where
  "get_frame s t =
     (case camera_adapter s of
        None \<Rightarrow> None
      | Some a \<Rightarrow> (case adapter_frame t of Inl e \<Rightarrow> None | Inr f \<Rightarrow> f))"

text \<open>What the video writer is asked to do, in order.\<close>

datatype sink_event = Opened string | Written frame | Released

text \<open>
  Lines 233 to 242: the events the pass adds to the sink, or the exception that leaves
  the loop.
\<close>

definition write_frame :: "surveillance \<Rightarrow> tick \<Rightarrow> exn + sink_event list" where
  "write_frame s t =
     (case get_frame s t of
        None \<Rightarrow> Inr []
      | Some f \<Rightarrow>
          (case (case camera_adapter s of
                   Some a \<Rightarrow>
                     if \<not> is_bgr_format a then
                       (case cvtColor_error t of Some e \<Rightarrow> Inl e | None \<Rightarrow> Inr (COLOR_RGB2BGR f))
                     else Inr f
                 | None \<Rightarrow> Inr f)
           of Inl e \<Rightarrow> Inl e
            | Inr frame_bgr \<Rightarrow>
                (case write_error t of Some e \<Rightarrow> Inl e | None \<Rightarrow> Inr [Written frame_bgr])))"

text \<open>Line 245: \<^verbatim>\<open>duration and (time.time() - start_time) >= duration\<close>.\<close>

definition duration_reached :: "jvalue \<Rightarrow> real \<Rightarrow> exn + bool" where
  "duration_reached duration el = (if truthy duration then float_ge el duration else Inr False)"

text \<open>How the \<^verbatim>\<open>while\<close> loop of lines 232 to 248 is left.\<close>

datatype loop_exit = Flag_cleared | Duration_reached | Raised exn

text \<open>
  The loop over the passes observed so far. The result is the state, the sink's events
  and the way the loop was left; \<open>None\<close> when it has not been left after the last
  observed pass.
\<close>

fun record_loop ::
  "jvalue \<Rightarrow> tick list \<Rightarrow> surveillance \<Rightarrow> sink_event list \<Rightarrow>
   surveillance \<times> sink_event list \<times> loop_exit option" where
  "record_loop duration [] s out = (s, out, None)"
| "record_loop duration (t # ts) s out =
     (let s1 = (if stop_requested t then s\<lparr>is_recording := False\<rparr> else s)
      in if \<not> is_recording s1 then (s1, out, Some Flag_cleared)
         else
           (case write_frame s1 t of
              Inl e \<Rightarrow> (s1, out, Some (Raised e))
            | Inr written \<Rightarrow>
                (case duration_reached duration (elapsed t) of
                   Inl e \<Rightarrow> (s1, out @ written, Some (Raised e))
                 | Inr True \<Rightarrow> (s1, out @ written, Some Duration_reached)
                 | Inr False \<Rightarrow> record_loop duration ts s1 (out @ written))))"

text \<open>
  \<^verbatim>\<open>_record_video\<close> (a name cannot begin with an underscore here): the writer is
  constructed, the loop runs, \<^verbatim>\<open>out.release()\<close> follows the loop inside the \<^verbatim>\<open>try\<close>, the
  handler prints, and \<^verbatim>\<open>finally\<close> clears the flag. While the loop has not been left the
  method has not returned and nothing after the loop has run.
\<close>

definition record_video ::
  "surveillance \<Rightarrow> string \<Rightarrow> jvalue \<Rightarrow> tick list \<Rightarrow>
   surveillance \<times> sink_event list \<times> loop_exit option" where
  "record_video s filepath duration ticks =
     (case record_loop duration ticks s [Opened filepath] of
        (s1, out, None) \<Rightarrow> (s1, out, None)
      | (s1, out, Some (Raised e)) \<Rightarrow> (s1\<lparr>is_recording := False\<rparr>, out, Some (Raised e))
      | (s1, out, Some ex) \<Rightarrow> (s1\<lparr>is_recording := False\<rparr>, out @ [Released], Some ex))"

subsection \<open>\<^verbatim>\<open>cleanup_old_recordings\<close>\<close>

text \<open>
  A naive \<^verbatim>\<open>datetime\<close>: the proleptic Gregorian ordinal of its date (1 is 0001-01-01) and
  the microseconds since midnight. The order of two datetimes is the order of these pairs.
\<close>

record datetime =
  ordinal :: int
  micros :: nat

definition dt_less :: "datetime \<Rightarrow> datetime \<Rightarrow> bool" where
  "dt_less a b = (ordinal a < ordinal b \<or> (ordinal a = ordinal b \<and> micros a < micros b))"

definition is_leap :: "nat \<Rightarrow> bool" where
  "is_leap y = (y mod 4 = 0 \<and> (y mod 100 \<noteq> 0 \<or> y mod 400 = 0))"

definition days_in_month :: "nat \<Rightarrow> nat \<Rightarrow> nat" where
  "days_in_month y m =
     (if m = 2 then (if is_leap y then 29 else 28)
      else if m = 4 \<or> m = 6 \<or> m = 9 \<or> m = 11 then 30 else 31)"

definition days_before_year :: "nat \<Rightarrow> nat" where
  "days_before_year y = (y - 1) * 365 + (y - 1) div 4 - (y - 1) div 100 + (y - 1) div 400"

text \<open>The days of a common year that precede each month, January first.\<close>

definition DAYS_BEFORE_MONTH :: "nat list" where
  "DAYS_BEFORE_MONTH = [0, 31, 59, 90, 120, 151, 181, 212, 243, 273, 304, 334]"

definition days_before_month :: "nat \<Rightarrow> nat \<Rightarrow> nat" where
  "days_before_month y m =
     DAYS_BEFORE_MONTH ! (m - 1) + (if 2 < m \<and> is_leap y then 1 else 0)"

definition ymd2ord :: "nat \<Rightarrow> nat \<Rightarrow> nat \<Rightarrow> int" where
  "ymd2ord y m d = int (days_before_year y + days_before_month y m + d)"

text \<open>The ordinal of 9999-12-31.\<close>

definition MAXORDINAL :: int where
  "MAXORDINAL = 3652059"

text \<open>The constructor \<^verbatim>\<open>datetime(year, month, day)\<close>, at midnight.\<close>

definition datetime_ymd :: "nat \<Rightarrow> nat \<Rightarrow> nat \<Rightarrow> exn + datetime" where
  "datetime_ymd y m d =
     (if 1 \<le> y \<and> y \<le> 9999 \<and> 1 \<le> m \<and> m \<le> 12 \<and> 1 \<le> d \<and> d \<le> days_in_month y m
      then Inr \<lparr>ordinal = ymd2ord y m d, micros = 0\<rparr>
      else Inl ValueError)"

text \<open>
  \<^verbatim>\<open>datetime.strptime(name, "%Y-%m-%d")\<close> on an ASCII name. The directives match
  \<^verbatim>\<open>\d\d\d\d\<close>, \<^verbatim>\<open>1[0-2]|0[1-9]|[1-9]\<close> and \<^verbatim>\<open>3[01]|[12]\d|0[1-9]|[1-9]| [1-9]\<close>,
  and the whole name has to be matched.
\<close>

definition is_digit :: "char \<Rightarrow> bool" where
  "is_digit c = (c \<in> set ''0123456789'')"

definition digit_val :: "char \<Rightarrow> nat" where
  "digit_val c = of_char c - 48"

fun directive_Y :: "string \<Rightarrow> nat option" where
  "directive_Y [a, b, c, d] =
     (if is_digit a \<and> is_digit b \<and> is_digit c \<and> is_digit d
      then Some (1000 * digit_val a + 100 * digit_val b + 10 * digit_val c + digit_val d)
      else None)"
| "directive_Y other = None"

fun directive_m :: "string \<Rightarrow> nat option" where
  "directive_m [a] = (if is_digit a \<and> a \<noteq> CHR ''0'' then Some (digit_val a) else None)"
| "directive_m [a, b] =
     (if a = CHR ''1'' \<and> b \<in> set ''012'' then Some (10 + digit_val b)
      else if a = CHR ''0'' \<and> is_digit b \<and> b \<noteq> CHR ''0'' then Some (digit_val b)
      else None)"
| "directive_m other = None"

fun directive_d :: "string \<Rightarrow> nat option" where
  "directive_d [a] = (if is_digit a \<and> a \<noteq> CHR ''0'' then Some (digit_val a) else None)"
| "directive_d [a, b] =
     (if a = CHR ''3'' \<and> b \<in> set ''01'' then Some (30 + digit_val b)
      else if a \<in> set ''12'' \<and> is_digit b then Some (10 * digit_val a + digit_val b)
      else if a \<in> set ''0 '' \<and> is_digit b \<and> b \<noteq> CHR ''0'' then Some (digit_val b)
      else None)"
| "directive_d other = None"

definition strptime_Ymd :: "string \<Rightarrow> exn + datetime" where
  "strptime_Ymd name =
     (let dash = (\<lambda>c. c \<noteq> CHR ''-'');
          year = takeWhile dash name
      in case dropWhile dash name of
           [] \<Rightarrow> Inl ValueError
         | c1 # rest1 \<Rightarrow>
             (let month = takeWhile dash rest1
              in case dropWhile dash rest1 of
                   [] \<Rightarrow> Inl ValueError
                 | c2 # day \<Rightarrow>
                     (case (directive_Y year, directive_m month, directive_d day) of
                        (Some y, Some m, Some d) \<Rightarrow> datetime_ymd y m d
                      | other \<Rightarrow> Inl ValueError)))"

text \<open>\<^verbatim>\<open>timedelta(days=n)\<close> and \<^verbatim>\<open>now - delta\<close>, each with its range check.\<close>

definition timedelta_days :: "int \<Rightarrow> exn + int" where
  "timedelta_days n = (if \<bar>n\<bar> \<le> 999999999 then Inr n else Inl OverflowError)"

definition datetime_sub :: "datetime \<Rightarrow> int \<Rightarrow> exn + datetime" where
  "datetime_sub dt days =
     (if 0 < ordinal dt - days \<and> ordinal dt - days \<le> MAXORDINAL
      then Inr (dt\<lparr>ordinal := ordinal dt - days\<rparr>)
      else Inl OverflowError)"

text \<open>Line 342, inside the outer \<^verbatim>\<open>try\<close>.\<close>

definition cutoff_date :: "datetime \<Rightarrow> surveillance \<Rightarrow> exn + datetime" where
  "cutoff_date now s =
     (case timedelta_days (auto_delete_days s) of
        Inl e \<Rightarrow> Inl e
      | Inr delta \<Rightarrow> datetime_sub now delta)"

text \<open>
  \<^verbatim>\<open>shutil.rmtree\<close> on an entry of the storage directory: a directory goes with all it
  holds; a plain file or a missing entry is an \<^verbatim>\<open>OSError\<close>.
\<close>

definition rmtree :: "string \<Rightarrow> (string \<times> kind) list \<Rightarrow> exn + (string \<times> kind) list" where
  "rmtree name fs =
     (case map_of fs name of
        None \<Rightarrow> Inl OSError
      | Some File \<Rightarrow> Inl OSError
      | Some Dir \<Rightarrow> Inr (filter (\<lambda>e. fst e \<noteq> name) fs))"

text \<open>
  The \<^verbatim>\<open>for\<close> loop of lines 345 to 354 over the names \<^verbatim>\<open>os.listdir\<close> returned, in any
  order. The inner handler catches \<^verbatim>\<open>ValueError\<close> only; any other exception leaves the
  loop with the deletions made so far.
\<close>

fun sweep ::
  "datetime \<Rightarrow> string list \<Rightarrow> (string \<times> kind) list \<Rightarrow> nat \<Rightarrow>
   (string \<times> kind) list \<times> (exn + nat)" where
  "sweep cutoff [] fs deleted_count = (fs, Inr deleted_count)"
| "sweep cutoff (date_folder # rest) fs deleted_count =
     (case strptime_Ymd date_folder of
        Inl e \<Rightarrow>
          (if e = ValueError then sweep cutoff rest fs deleted_count else (fs, Inl e))
      | Inr folder_date \<Rightarrow>
          if dt_less folder_date cutoff then
            (case rmtree date_folder fs of
               Inl e \<Rightarrow>
                 (if e = ValueError then sweep cutoff rest fs deleted_count else (fs, Inl e))
             | Inr fs' \<Rightarrow> sweep cutoff rest fs' (deleted_count + 1))
          else sweep cutoff rest fs deleted_count)"

text \<open>
  The method, given the reading of \<^verbatim>\<open>datetime.now()\<close>. The storage directory itself
  exists: \<^verbatim>\<open>__init__\<close> makes it and no method removes it.
\<close>

definition cleanup_old_recordings ::
  "datetime \<Rightarrow> surveillance \<Rightarrow> surveillance \<times> (bool \<times> message) outcome" where
  "cleanup_old_recordings now s =
     (case cutoff_date now s of
        Inl e \<Rightarrow> (s, Inr (False, Cleanup_failed e))
      | Inr cutoff \<Rightarrow>
          (case sweep cutoff (map fst (archive s)) (archive s) 0 of
             (fs, Inl e) \<Rightarrow> (s\<lparr>archive := fs\<rparr>, Inr (False, Cleanup_failed e))
           | (fs, Inr deleted_count) \<Rightarrow>
               (s\<lparr>archive := fs\<rparr>, Inr (True, Deleted_old_recording_folders deleted_count))))"

subsection \<open>Notions the statements use\<close>

text \<open>The \<^verbatim>\<open>Written\<close> events a run of passes without an exception adds to the sink.\<close>

definition frames_of :: "surveillance \<Rightarrow> tick list \<Rightarrow> sink_event list" where
  "frames_of s ts = concat (map (\<lambda>t. case write_frame s t of Inl e \<Rightarrow> [] | Inr w \<Rightarrow> w) ts)"

text \<open>
  An entry's name parses as a date and that date, at midnight, lies strictly before the
  cutoff: the test of lines 347 and 348.
\<close>

definition expired :: "datetime \<Rightarrow> string \<Rightarrow> bool" where
  "expired cutoff name =
     (case strptime_Ymd name of Inl e \<Rightarrow> False | Inr d \<Rightarrow> dt_less d cutoff)"

subsection \<open>Example platforms, states and observations\<close>

text \<open>A development machine: no Pi camera library, no capture device.\<close>

definition dev_platform :: platform where
  "dev_platform =
     \<lparr>PICAMERA_AVAILABLE = False,
      picamera_init_error = None,
      capture_is_opened = False,
      has_set_controls = False,
      set_controls_error = (\<lambda>c. None),
      float_of_str = (\<lambda>s. None),
      strftime_stamp = ''20240115_101500'',
      strftime_date = ''2024-01-15'',
      thread_start_error = None\<rparr>"

text \<open>A Raspberry Pi with a working camera.\<close>

definition pi_platform :: platform where
  "pi_platform = dev_platform\<lparr>PICAMERA_AVAILABLE := True, has_set_controls := True\<rparr>"

text \<open>
  A Raspberry Pi whose camera library is installed but whose camera does not start, with
  a USB capture device that opens.
\<close>

definition pi_platform_camera_down :: platform where
  "pi_platform_camera_down =
     dev_platform\<lparr>PICAMERA_AVAILABLE := True,
                  picamera_init_error := Some RuntimeError,
                  capture_is_opened := True\<rparr>"

text \<open>The object after \<^verbatim>\<open>__init__\<close> on the development machine, idle, and while recording.\<close>

definition idle_state :: surveillance where
  "idle_state = fst (SurveillanceSystem_init dev_platform)"

definition recording_state :: surveillance where
  "recording_state = fst (start_recording dev_platform JNull ''manual'' idle_state)"

text \<open>The object after \<^verbatim>\<open>__init__\<close> on the Raspberry Pi with a working camera.\<close>

definition pi_state :: surveillance where
  "pi_state = fst (SurveillanceSystem_init pi_platform)"

text \<open>A pass in which the camera delivers a frame and nothing fails, at a given clock reading.\<close>

definition frame_pass :: "real \<Rightarrow> tick" where
  "frame_pass el =
     \<lparr>stop_requested = False,
      adapter_frame = Inr (Some [(10, 20, 30)]),
      cvtColor_error = None,
      write_error = None,
      elapsed = el\<rparr>"

text \<open>The clock at noon of 2024-01-15.\<close>

definition noon_2024_01_15 :: datetime where
  "noon_2024_01_15 = \<lparr>ordinal = ymd2ord 2024 1 15, micros = 43200000000\<rparr>"

text \<open>The storage directory of the example: two date folders and a stray file.\<close>

definition example_archive :: "(string \<times> kind) list" where
  "example_archive = [(''2024-01-01'', Dir), (''notes.txt'', File), (''2024-01-10'', Dir)]"


section \<open>Properties\<close>

subsection \<open>What the methods leave alone\<close>

lemma dom_initial_settings: "dom (camera_settings initial_fields) = setting_keys"
  by (auto simp: initial_fields_def setting_keys_def split: if_splits)

lemma set_controls_fields:
  "set_controls env c s = Inr s' \<Longrightarrow> s' = s\<lparr>controls_applied := controls_applied s @ [c]\<rparr>"
  by (auto simp: set_controls_def split: option.splits)

lemma apply_to_camera_settings:
  "apply_to_camera env setting v s = Inr s' \<Longrightarrow> camera_settings s' = camera_settings s"
  by (auto simp: apply_to_camera_def split: if_splits sum.splits dest!: set_controls_fields)

lemma apply_to_camera_duration:
  "apply_to_camera env setting v s = Inr s' \<Longrightarrow> recording_duration s' = recording_duration s"
  by (auto simp: apply_to_camera_def split: if_splits sum.splits dest!: set_controls_fields)

lemma update_camera_setting_keys:
  "dom (camera_settings (fst (update_camera_setting env setting v s))) = dom (camera_settings s)"
proof (cases setting)
  case (JStr k)
  show ?thesis
  proof (cases "camera_settings s k")
    case None
    with JStr show ?thesis by (simp add: update_camera_setting_def)
  next
    case (Some old)
    then have "dom ((camera_settings s)(k \<mapsto> v)) = dom (camera_settings s)" by auto
    with JStr Some show ?thesis
      by (auto simp: update_camera_setting_def Let_def split: sum.splits
               dest!: apply_to_camera_settings)
  qed
qed (simp_all add: update_camera_setting_def)

lemma init_camera_closed_form:
  "init_camera env s =
     (s\<lparr>camera_adapter := Some
          (if PICAMERA_AVAILABLE env
           then (if picamera_init_error env = None then PiCameraAdapter else SyntheticCameraAdapter)
           else (if capture_is_opened env then OpenCVCameraAdapter else SyntheticCameraAdapter))\<rparr>,
      Inr ())"
  by (auto simp: init_camera_def init_camera_body_def PiCameraAdapter_init_def
        OpenCVCameraAdapter_init_def SyntheticCameraAdapter_init_def split: option.splits)

lemma record_loop_fields:
  "\<exists>b. fst (record_loop d ticks s out) = s\<lparr>is_recording := b\<rparr>"
proof (induction ticks arbitrary: s out)
  case Nil
  have "s = s\<lparr>is_recording := is_recording s\<rparr>" by simp
  then show ?case by (metis fst_conv record_loop.simps(1))
next
  case (Cons t ticks)
  have same: "\<exists>b. s = s\<lparr>is_recording := b\<rparr>"
    by (rule exI [of _ "is_recording s"]) simp
  have IH': "\<exists>b. fst (record_loop d ticks (s\<lparr>is_recording := c\<rparr>) out') = s\<lparr>is_recording := b\<rparr>" for c out'
    using Cons.IH [of "s\<lparr>is_recording := c\<rparr>" out'] by auto
  show ?case
    using same Cons.IH [of s] IH'
    by (auto simp: Let_def split: sum.splits bool.splits)
qed

text \<open>
  A call of \<^verbatim>\<open>start_recording\<close> that returns \<^verbatim>\<open>True\<close> has set the flag and started one
  thread, which carries the call's duration.
\<close>

lemma start_recording_thread:
  assumes "start_recording env duration trigger s = (s', Inr (True, msg))"
  shows "is_recording s' \<and>
         (\<exists>t. recording_thread s' = Some t \<and> started t \<and> arg_duration t = duration \<and>
              threads_started s' = threads_started s @ [t])"
  using assms
  by (auto simp: start_recording_def Let_def split: if_splits sum.splits option.splits)

text \<open>
  \<^verbatim>\<open>recording_duration\<close> is assigned in \<^verbatim>\<open>__init__\<close> only: it is 180 in every state the
  methods reach.
\<close>

lemma recording_duration_initial: "recording_duration initial_fields = 180"
  by (simp add: initial_fields_def)

lemma recording_duration_fixed:
  "recording_duration (fst (init_camera env s)) = recording_duration s"
  "recording_duration (fst (start_recording env d trigger s)) = recording_duration s"
  "recording_duration (fst (stop_recording s)) = recording_duration s"
  "recording_duration (fst (motion_detected env channel s)) = recording_duration s"
  "recording_duration (fst (update_camera_setting env setting v s)) = recording_duration s"
  "recording_duration (fst (cleanup_old_recordings now s)) = recording_duration s"
  "recording_duration (fst (record_video s filepath d ticks)) = recording_duration s"
proof -
  show "recording_duration (fst (init_camera env s)) = recording_duration s"
    by (simp add: init_camera_closed_form)
  show start: "recording_duration (fst (start_recording env d trigger s)) = recording_duration s"
    for d trigger
    by (simp add: start_recording_def Let_def split: sum.splits option.splits)
  show "recording_duration (fst (stop_recording s)) = recording_duration s"
    by (simp add: stop_recording_def Let_def split: option.splits)
  show "recording_duration (fst (motion_detected env channel s)) = recording_duration s"
    by (simp add: motion_detected_def start)
  show "recording_duration (fst (update_camera_setting env setting v s)) = recording_duration s"
    by (auto simp: update_camera_setting_def Let_def split: sum.splits bool.splits
             dest!: apply_to_camera_duration)
  show "recording_duration (fst (cleanup_old_recordings now s)) = recording_duration s"
    by (simp add: cleanup_old_recordings_def split: sum.splits prod.splits)
  obtain b where "fst (record_loop d ticks s [Opened filepath]) = s\<lparr>is_recording := b\<rparr>"
    using record_loop_fields by blast
  then show "recording_duration (fst (record_video s filepath d ticks)) = recording_duration s"
    by (auto simp: record_video_def split: prod.splits option.splits loop_exit.splits)
qed


subsection \<open>The state gates of the recorder\<close>

text \<open>
  C3. \<^verbatim>\<open>start_recording\<close> called while a recording is active returns
  \<^verbatim>\<open>(False, "Already recording")\<close>, and \<^verbatim>\<open>stop_recording\<close> called while none is active
  returns \<^verbatim>\<open>(False, "Not currently recording")\<close>. Both return this pair, no exception
  leaves the method, and the state is the one before the call.
\<close>

theorem state_gate_declines:
  assumes "is_recording s" and "\<not> is_recording s'"
  shows "start_recording env duration trigger s = (s, Inr (False, Already_recording)) \<and>
         stop_recording s' = (s', Inr (False, Not_currently_recording))"
  using assms by (simp add: start_recording_def stop_recording_def)

theorem state_gate_declines_witness:
  "start_recording dev_platform (JInt 60) ''manual'' recording_state =
     (recording_state, Inr (False, Already_recording)) \<and>
   stop_recording idle_state = (idle_state, Inr (False, Not_currently_recording))"
proof -
  have active: "is_recording recording_state"
    by (simp add: recording_state_def idle_state_def SurveillanceSystem_init_def
          init_camera_closed_form start_recording_def makedirs_def Let_def
          initial_fields_def dev_platform_def)
  have idle: "\<not> is_recording idle_state"
    by (simp add: idle_state_def SurveillanceSystem_init_def init_camera_closed_form
          initial_fields_def)
  from state_gate_declines [OF active idle] show ?thesis .
qed

subsection \<open>Two calls of \<^verbatim>\<open>start_recording\<close> at once\<close>

text \<open>The two steps of a call, taken without interruption, are the method.\<close>

lemma start_recording_split:
  "start_recording env duration trigger s =
     (if is_recording s then (s, Inr (False, Already_recording))
      else start_recording_rest env duration trigger s)"
  by (simp add: start_recording_def start_recording_rest_def)

lemma call_alone:
  "interleave (env, duration, trigger) b [First, First] (Before_test, cb, s) =
     (Returned (snd (start_recording env duration trigger s)), cb,
      fst (start_recording env duration trigger s))"
  by (simp add: start_recording_split split: prod.splits)

lemma idle_state_fields:
  "idle_state = initial_fields\<lparr>camera_adapter := Some SyntheticCameraAdapter\<rparr>"
  by (simp add: idle_state_def SurveillanceSystem_init_def init_camera_closed_form
        dev_platform_def)

text \<open>
  When the second call begins after the first has returned \<^verbatim>\<open>True\<close>, the second is
  declined and the state is the one the first call left.
\<close>

lemma one_call_after_the_other:
  assumes "start_recording env duration trigger s = (s1, Inr (True, msg))"
  shows "interleave (env, duration, trigger) b [First, First, Second, Second]
           (Before_test, Before_test, s) =
         (Returned (Inr (True, msg)), Returned (Inr (False, Already_recording)), s1)"
proof -
  from assms have "is_recording s1"
    by (auto simp: start_recording_def Let_def split: if_splits sum.splits option.splits)
  moreover from assms have "\<not> is_recording s"
    by (auto simp: start_recording_def split: if_splits)
  moreover from this assms have "start_recording_rest env duration trigger s = (s1, Inr (True, msg))"
    by (simp add: start_recording_split)
  ultimately show ?thesis by (cases b) simp
qed

text \<open>
  C1, where the code differs. The claim has exactly one of two concurrent calls succeed
  and the other declined. With the recorder idle, a manual call and a call for a motion
  edge that both run the test of line 199 before either runs line 203 both find the flag
  clear: both return \<^verbatim>\<open>True\<close>, two capture threads are started on the one object, and
  \<^verbatim>\<open>recording_thread\<close> keeps only the second.
\<close>

theorem overlapping_starts_both_succeed:
  "interleave (dev_platform, JNull, ''manual'') (dev_platform, JInt 180, ''motion'')
     [First, Second, First, Second] (Before_test, Before_test, idle_state) =
     (Returned (Inr (True, Recording_started ''manual_20240115_101500.mp4'')),
      Returned (Inr (True, Recording_started ''motion_20240115_101500.mp4'')),
      idle_state
        \<lparr>is_recording := True,
         recording_thread :=
           Some \<lparr>arg_filepath = ''recordings/2024-01-15/motion_20240115_101500.mp4'',
                 arg_duration = JInt 180, started = True\<rparr>,
         archive := [(''2024-01-15'', Dir)],
         threads_started :=
           [\<lparr>arg_filepath = ''recordings/2024-01-15/manual_20240115_101500.mp4'',
              arg_duration = JNull, started = True\<rparr>,
            \<lparr>arg_filepath = ''recordings/2024-01-15/motion_20240115_101500.mp4'',
              arg_duration = JInt 180, started = True\<rparr>]\<rparr>)"
  by (simp add: idle_state_fields initial_fields_def dev_platform_def
        start_recording_rest_def makedirs_def path_join_def Let_def)

subsection \<open>The motion trigger\<close>

text \<open>
  C5. A motion edge that arrives while motion detection is armed and no recording is
  active starts exactly one recording: one thread is started, its duration argument is
  the fixed 180 seconds, its file is named with the origin \<^verbatim>\<open>motion\<close>, and the recorder is
  recording afterwards. This is stated for a platform on which the date folder can be
  made and the thread can be started. A motion edge that arrives while a recording is
  active or while motion detection is disarmed changes nothing: the state, which holds no
  queue of edges, is the one before the call.
\<close>

theorem motion_edge_starts_one_recording_or_is_ignored:
  assumes "motion_detection_enabled s" and "\<not> is_recording s"
    and "recording_duration s = 180"
    and "map_of (archive s) (strftime_date env) \<noteq> Some File"
    and "thread_start_error env = None"
    and "\<not> motion_detection_enabled s' \<or> is_recording s'"
  shows "(\<exists>t. threads_started (fst (motion_detected env channel s)) = threads_started s @ [t] \<and>
              recording_thread (fst (motion_detected env channel s)) = Some t \<and>
              started t \<and>
              arg_duration t = JInt 180 \<and>
              arg_filepath t =
                path_join (path_join (video_storage_path s) (strftime_date env))
                  (''motion_'' @ strftime_stamp env @ ''.mp4'')) \<and>
         is_recording (fst (motion_detected env channel s)) \<and>
         snd (motion_detected env channel s) = Inr () \<and>
         motion_detected env channel s' = (s', Inr ())"
  using assms
  by (auto simp: motion_detected_def start_recording_def makedirs_def Let_def
           split: option.splits kind.splits)

theorem motion_edge_witness:
  "(\<exists>t. threads_started (fst (motion_detected dev_platform None
            (idle_state\<lparr>motion_detection_enabled := True\<rparr>))) = [t] \<and>
         arg_duration t = JInt 180 \<and>
         arg_filepath t = ''recordings/2024-01-15/motion_20240115_101500.mp4'') \<and>
   motion_detected dev_platform None idle_state = (idle_state, Inr ())"
proof -
  have idle: "idle_state = initial_fields\<lparr>camera_adapter := Some SyntheticCameraAdapter\<rparr>"
    by (simp add: idle_state_def SurveillanceSystem_init_def init_camera_closed_form
          dev_platform_def)
  have "motion_detection_enabled (idle_state\<lparr>motion_detection_enabled := True\<rparr>)"
    and "\<not> is_recording (idle_state\<lparr>motion_detection_enabled := True\<rparr>)"
    and "recording_duration (idle_state\<lparr>motion_detection_enabled := True\<rparr>) = 180"
    and "map_of (archive (idle_state\<lparr>motion_detection_enabled := True\<rparr>))
           (strftime_date dev_platform) \<noteq> Some File"
    and "thread_start_error dev_platform = None"
    and "\<not> motion_detection_enabled idle_state \<or> is_recording idle_state"
    by (simp_all add: idle initial_fields_def dev_platform_def)
  from motion_edge_starts_one_recording_or_is_ignored [OF this]
  show ?thesis
    by (auto simp: idle initial_fields_def dev_platform_def path_join_def)
qed

subsection \<open>The camera factory\<close>

text \<open>
  C6, as the code has it. \<^verbatim>\<open>init_camera\<close> always assigns an adapter and no constructor's
  exception leaves it. With the Pi camera library present it tries the Pi camera and, when
  that fails, assigns the synthetic adapter without trying the capture device. With the
  library absent it tries the capture device and then the synthetic adapter. All other
  fields are left as they were.
\<close>

theorem init_camera_assigns_adapter:
  "init_camera env s =
     (s\<lparr>camera_adapter := Some
          (if PICAMERA_AVAILABLE env
           then (if picamera_init_error env = None then PiCameraAdapter
                 else SyntheticCameraAdapter)
           else (if capture_is_opened env then OpenCVCameraAdapter
                 else SyntheticCameraAdapter))\<rparr>,
      Inr ()) \<and>
   camera_adapter (fst (init_camera env s)) \<noteq> None"
  by (simp add: init_camera_closed_form)

text \<open>
  C6 as it is written has the capture device tried after the Pi camera. On a Pi whose
  camera fails to start while a capture device would open, the capture device is not
  used: the synthetic adapter is assigned.
\<close>

theorem init_camera_skips_capture_device:
  "PiCameraAdapter_init pi_platform_camera_down = Inl RuntimeError \<and>
   OpenCVCameraAdapter_init pi_platform_camera_down = Inr OpenCVCameraAdapter \<and>
   init_camera pi_platform_camera_down initial_fields =
     (initial_fields\<lparr>camera_adapter := Some SyntheticCameraAdapter\<rparr>, Inr ())"
  by (simp add: init_camera_def init_camera_body_def PiCameraAdapter_init_def
        OpenCVCameraAdapter_init_def SyntheticCameraAdapter_init_def
        pi_platform_camera_down_def dev_platform_def)

subsection \<open>Camera settings\<close>

text \<open>
  C8. With the six keys of \<^verbatim>\<open>__init__\<close> in the dictionary, \<^verbatim>\<open>update_camera_setting\<close> on
  any other key (a string that is not one of the six, or a value that is no string)
  returns a pair whose flag is \<^verbatim>\<open>False\<close>, and the state, the settings with it, is the
  one before the call.
\<close>

theorem unknown_setting_rejected_unchanged:
  assumes "dom (camera_settings s) = setting_keys" and "setting \<notin> JStr ` setting_keys"
  shows "\<exists>msg. update_camera_setting env setting v s = (s, Inr (False, msg))"
proof (cases setting)
  case (JStr k)
  with assms have "camera_settings s k = None" by (auto simp: dom_def)
  with JStr show ?thesis by (simp add: update_camera_setting_def)
qed (simp_all add: update_camera_setting_def)

theorem unknown_setting_witness:
  "\<exists>msg. update_camera_setting dev_platform (JStr ''gain'') (JInt 5) initial_fields =
           (initial_fields, Inr (False, msg))"
proof -
  have "JStr ''gain'' \<notin> JStr ` setting_keys"
    by (auto simp: setting_keys_def)
  from unknown_setting_rejected_unchanged [OF dom_initial_settings this]
  show ?thesis .
qed

text \<open>
  C10. For a key of the dictionary, the new value is stored first and the camera is
  addressed with the value already stored; the dictionary holds the new value after the
  call whatever the camera does. When addressing the camera raises, the call returns
  \<^verbatim>\<open>False\<close> with the failure message and the state is the one with the new value stored:
  nothing is rolled back.
\<close>

theorem known_setting_stored_before_camera:
  assumes "k \<in> dom (camera_settings s)"
  shows "camera_settings (fst (update_camera_setting env (JStr k) v s)) =
           (camera_settings s)(k \<mapsto> v) \<and>
         (\<forall>e. apply_to_camera env (JStr k) v
                 (s\<lparr>camera_settings := (camera_settings s)(k \<mapsto> v)\<rparr>) = Inl e \<longrightarrow>
              update_camera_setting env (JStr k) v s =
                (s\<lparr>camera_settings := (camera_settings s)(k \<mapsto> v)\<rparr>,
                 Inr (False, Failed_to_update (JStr k) e)))"
proof -
  let ?s1 = "s\<lparr>camera_settings := (camera_settings s)(k \<mapsto> v)\<rparr>"
  from assms have known: "setting_in (JStr k) (camera_settings s) = Inr True" by auto
  show ?thesis
  proof (cases "apply_to_camera env (JStr k) v ?s1")
    case (Inl e)
    with known show ?thesis by (simp add: update_camera_setting_def)
  next
    case (Inr s2)
    from apply_to_camera_settings [OF Inr] have "camera_settings s2 = (camera_settings s)(k \<mapsto> v)"
      by simp
    with known Inr show ?thesis by (simp add: update_camera_setting_def)
  qed
qed

theorem known_setting_witness:
  "camera_settings
     (fst (update_camera_setting pi_platform (JStr ''brightness'') (JStr ''high'') pi_state))
     ''brightness'' = Some (JStr ''high'') \<and>
   snd (update_camera_setting pi_platform (JStr ''brightness'') (JStr ''high'') pi_state) =
     Inr (False, Failed_to_update (JStr ''brightness'') ValueError)"
proof -
  have s: "pi_state = initial_fields\<lparr>camera_adapter := Some PiCameraAdapter\<rparr>"
    by (simp add: pi_state_def SurveillanceSystem_init_def init_camera_closed_form
          pi_platform_def dev_platform_def)
  have known: "''brightness'' \<in> dom (camera_settings pi_state)"
    by (simp add: s initial_fields_def)
  have raises: "apply_to_camera pi_platform (JStr ''brightness'') (JStr ''high'')
          (pi_state\<lparr>camera_settings :=
             (camera_settings pi_state)(''brightness'' \<mapsto> JStr ''high'')\<rparr>) =
        Inl ValueError"
    by (simp add: s apply_to_camera_def pi_platform_def dev_platform_def)
  from known_setting_stored_before_camera [OF known, of pi_platform "JStr ''high''"] raises
  show ?thesis by simp
qed


subsection \<open>The capture loop\<close>

lemma write_frame_flag [simp]: "write_frame (s\<lparr>is_recording := b\<rparr>) t = write_frame s t"
  by (simp add: write_frame_def get_frame_def split: option.splits sum.splits)

lemma zero_not_truthy: "number_of d = Some 0 \<Longrightarrow> \<not> truthy d"
  by (cases d) (auto split: if_splits)

lemma falsy_never_reached:
  "\<not> truthy d \<Longrightarrow> snd (snd (record_loop d ticks s out)) \<noteq> Some Duration_reached"
  by (induction ticks arbitrary: s out)
     (auto simp: duration_reached_def Let_def split: sum.splits)

text \<open>
  Passes in which no stop is requested, nothing raises and the cap is not reached leave
  the loop running, with their frames written.
\<close>

lemma quiet_prefix:
  assumes "is_recording s"
    and "\<forall>u\<in>set pre. \<not> stop_requested u \<and> \<not> isl (write_frame s u) \<and>
            duration_reached d (elapsed u) = Inr False"
  shows "record_loop d (pre @ rest) s out = record_loop d rest s (out @ frames_of s pre)"
  using assms
proof (induction pre arbitrary: out)
  case Nil
  then show ?case by (simp add: frames_of_def)
next
  case (Cons u pre)
  from Cons.prems obtain w where w: "write_frame s u = Inr w"
    by (cases "write_frame s u") auto
  from Cons.prems
  have "record_loop d ((u # pre) @ rest) s out = record_loop d (pre @ rest) s (out @ w)"
    by (simp add: w)
  also have "\<dots> = record_loop d rest s ((out @ w) @ frames_of s pre)"
    using Cons.prems by (intro Cons.IH) auto
  finally show ?case by (simp add: frames_of_def w)
qed

text \<open>The loop itself never releases the sink.\<close>

lemma loop_adds_no_release:
  "Released \<notin> set out \<Longrightarrow> Released \<notin> set (fst (snd (record_loop d ticks s out)))"
proof (induction ticks arbitrary: s out)
  case Nil
  then show ?case by simp
next
  case (Cons t ticks)
  have w: "write_frame s' t = Inr w \<Longrightarrow> Released \<notin> set w" for s' w
    by (auto simp: write_frame_def split: option.splits sum.splits if_splits)
  have step: "Released \<notin> set (fst (snd (record_loop d ticks s' (out @ w))))"
    if "write_frame s' t = Inr w" for s' w
    using that Cons.prems by (intro Cons.IH) (auto dest: w)
  show ?case using Cons.prems
    by (auto simp: Let_def split: sum.splits bool.splits dest: w step)
qed

text \<open>
  When the loop is left by a cleared flag or by the cap, \<^verbatim>\<open>release\<close> is the last event
  and the only one of its kind; when it is left by an exception, the sink is never
  released.
\<close>

lemma release_count:
  assumes "record_video s filepath d ticks = (s', out, Some ex)"
  shows "count_list out Released = (case ex of Raised e \<Rightarrow> 0 | other \<Rightarrow> 1)"
proof -
  obtain s1 out1 where loop: "record_loop d ticks s [Opened filepath] = (s1, out1, Some ex)"
    using assms
    by (auto simp: record_video_def split: prod.splits option.splits loop_exit.splits)
  have "Released \<notin> set (fst (snd (record_loop d ticks s [Opened filepath])))"
    by (rule loop_adds_no_release) simp
  with loop have "count_list out1 Released = 0"
    by (simp add: count_list_0_iff)
  with loop assms show ?thesis
    by (cases ex) (auto simp: record_video_def)
qed

text \<open>The example state is recording with the synthetic camera, whose frames are written as they are.\<close>

lemma recording_state_fields:
  "is_recording recording_state"
  "camera_adapter recording_state = Some SyntheticCameraAdapter"
  by (simp_all add: recording_state_def idle_state_def SurveillanceSystem_init_def
        init_camera_closed_form start_recording_def makedirs_def Let_def
        initial_fields_def dev_platform_def)

lemma frame_pass_written:
  "write_frame recording_state (frame_pass el) = Inr [Written [(10, 20, 30)]]"
  by (simp add: write_frame_def get_frame_def frame_pass_def recording_state_fields)

text \<open>
  C2, where the code differs. The claim has the sink closed exactly once however the loop
  is left. When \<^verbatim>\<open>out.write\<close> raises in the first pass, the handler of line 253 runs and
  \<^verbatim>\<open>out.release()\<close> of line 250 is skipped: the sink was opened and is never released;
  only the flag is cleared.
\<close>

theorem write_error_leaves_sink_open:
  "record_video recording_state ''recordings/2024-01-15/manual_20240115_101500.mp4'' JNull
     [(frame_pass (1 / 30))\<lparr>write_error := Some cv2_error\<rparr>] =
     (recording_state\<lparr>is_recording := False\<rparr>,
      [Opened ''recordings/2024-01-15/manual_20240115_101500.mp4''],
      Some (Raised cv2_error))"
  by (simp add: record_video_def write_frame_def get_frame_def frame_pass_def
        recording_state_fields)

text \<open>
  C4, as the code has it. For a duration that is a number other than zero, the loop is
  left in the first pass whose reading of the elapsed time is at least the duration,
  provided no stop was requested and nothing raised up to that pass: the frames of the
  passes up to it are written, the sink is released, and the flag \<^verbatim>\<open>is_recording\<close> is
  cleared, without any call of \<^verbatim>\<open>stop_recording\<close>. Later passes do not happen.
\<close>

theorem duration_cap_ends_recording:
  assumes "truthy duration" and "number_of duration = Some cap"
    and "is_recording s"
    and "\<forall>u\<in>set pre. elapsed u < cap" and "cap \<le> elapsed t"
    and "\<forall>u\<in>set (pre @ [t]). \<not> stop_requested u \<and> \<not> isl (write_frame s u)"
  shows "record_video s filepath duration (pre @ t # post) =
           (s\<lparr>is_recording := False\<rparr>,
            Opened filepath # frames_of s (pre @ [t]) @ [Released],
            Some Duration_reached)"
proof -
  from assms
  have pre: "\<forall>u\<in>set pre. \<not> stop_requested u \<and> \<not> isl (write_frame s u) \<and>
               duration_reached duration (elapsed u) = Inr False"
    by (auto simp: duration_reached_def float_ge_def)
  from assms obtain w where w: "write_frame s t = Inr w"
    by (cases "write_frame s t") auto
  from assms have t: "duration_reached duration (elapsed t) = Inr True" "\<not> stop_requested t"
    by (auto simp: duration_reached_def float_ge_def)
  have "record_loop duration (pre @ t # post) s [Opened filepath] =
        record_loop duration (t # post) s ([Opened filepath] @ frames_of s pre)"
    using \<open>is_recording s\<close> pre by (rule quiet_prefix)
  also have "\<dots> = (s, Opened filepath # frames_of s (pre @ [t]), Some Duration_reached)"
    using \<open>is_recording s\<close> t w by (simp add: frames_of_def)
  finally show ?thesis by (simp add: record_video_def)
qed

theorem duration_cap_witness:
  "record_video recording_state ''clip.mp4'' (JInt 180)
     [frame_pass 179.95, frame_pass 180.01, frame_pass 180.05] =
     (recording_state\<lparr>is_recording := False\<rparr>,
      [Opened ''clip.mp4'', Written [(10, 20, 30)], Written [(10, 20, 30)], Released],
      Some Duration_reached)"
proof -
  have "truthy (JInt 180)" and "number_of (JInt 180) = Some 180"
    and "is_recording recording_state"
    and "\<forall>u\<in>set [frame_pass 179.95]. elapsed u < 180"
    and "180 \<le> elapsed (frame_pass 180.01)"
    and "\<forall>u\<in>set ([frame_pass 179.95] @ [frame_pass 180.01]).
           \<not> stop_requested u \<and> \<not> isl (write_frame recording_state u)"
    by (simp_all add: recording_state_fields frame_pass_written) (simp_all add: frame_pass_def)
  from duration_cap_ends_recording [OF this, of "''clip.mp4''" "[frame_pass 180.05]"]
  show ?thesis by (simp add: frames_of_def frame_pass_written)
qed

text \<open>
  C4 as it is written covers every duration that is not \<^verbatim>\<open>None\<close>. With the duration 0
  every reading of the elapsed time is at least the duration, and the loop is not left:
  after three passes the method has not returned, the sink is open and the flag is set.
\<close>

theorem zero_duration_cap_not_enforced:
  "number_of (JInt 0) = Some 0 \<and>
   0 \<le> elapsed (frame_pass 1) \<and>
   record_video recording_state ''clip.mp4'' (JInt 0)
     [frame_pass 1, frame_pass 2, frame_pass 3] =
     (recording_state,
      [Opened ''clip.mp4'', Written [(10, 20, 30)], Written [(10, 20, 30)],
       Written [(10, 20, 30)]],
      None) \<and>
   is_recording recording_state"
  by (simp add: record_video_def duration_reached_def recording_state_fields
        frame_pass_written)
     (simp add: frame_pass_def)

text \<open>
  C9. With a duration equal to 0 the cap is absent. The loop is never left because of the
  elapsed time, whatever the passes are. While no stop is requested and nothing raises it
  is still running after every pass, whatever the clock reads, with every frame written.
  It is left in the pass that finds the flag cleared by \<^verbatim>\<open>stop_recording\<close>, and the sink
  is released then.
\<close>

theorem zero_duration_runs_until_stopped:
  assumes "number_of duration = Some 0" and "is_recording s"
    and "\<forall>u\<in>set pre. \<not> stop_requested u \<and> \<not> isl (write_frame s u)"
    and "stop_requested t"
  shows "snd (snd (record_video s' filepath duration ticks)) \<noteq> Some Duration_reached \<and>
         record_video s filepath duration pre = (s, Opened filepath # frames_of s pre, None) \<and>
         record_video s filepath duration (pre @ t # post) =
           (s\<lparr>is_recording := False\<rparr>,
            Opened filepath # frames_of s pre @ [Released],
            Some Flag_cleared)"
proof -
  from assms have falsy: "\<not> truthy duration" by (simp add: zero_not_truthy)
  from falsy_never_reached [OF falsy, of ticks s' "[Opened filepath]"]
  have never: "snd (snd (record_video s' filepath duration ticks)) \<noteq> Some Duration_reached"
    by (auto simp: record_video_def split: prod.splits option.splits loop_exit.splits)
  from assms falsy
  have pre: "\<forall>u\<in>set pre. \<not> stop_requested u \<and> \<not> isl (write_frame s u) \<and>
               duration_reached duration (elapsed u) = Inr False"
    by (simp add: duration_reached_def)
  have run: "record_loop duration (pre @ rest) s [Opened filepath] =
             record_loop duration rest s ([Opened filepath] @ frames_of s pre)" for rest
    using \<open>is_recording s\<close> pre by (rule quiet_prefix)
  from run [of "[]"]
  have running: "record_video s filepath duration pre =
                   (s, Opened filepath # frames_of s pre, None)"
    by (simp add: record_video_def)
  from run [of "t # post"] \<open>stop_requested t\<close>
  have stopped: "record_video s filepath duration (pre @ t # post) =
           (s\<lparr>is_recording := False\<rparr>,
            Opened filepath # frames_of s pre @ [Released],
            Some Flag_cleared)"
    by (simp add: record_video_def)
  from never running stopped show ?thesis by simp
qed

theorem zero_duration_witness:
  "record_video recording_state ''clip.mp4'' (JInt 0) [frame_pass 3600, frame_pass 7200] =
     (recording_state,
      [Opened ''clip.mp4'', Written [(10, 20, 30)], Written [(10, 20, 30)]],
      None) \<and>
   record_video recording_state ''clip.mp4'' (JInt 0)
     ([frame_pass 3600, frame_pass 7200] @
      (frame_pass 7201)\<lparr>stop_requested := True\<rparr> # [frame_pass 7202]) =
     (recording_state\<lparr>is_recording := False\<rparr>,
      [Opened ''clip.mp4'', Written [(10, 20, 30)], Written [(10, 20, 30)], Released],
      Some Flag_cleared)"
proof -
  have "number_of (JInt 0) = Some 0" and "is_recording recording_state"
    and "\<forall>u\<in>set [frame_pass 3600, frame_pass 7200].
           \<not> stop_requested u \<and> \<not> isl (write_frame recording_state u)"
    and "stop_requested ((frame_pass 7201)\<lparr>stop_requested := True\<rparr>)"
    by (simp_all add: recording_state_fields frame_pass_written) (simp_all add: frame_pass_def)
  from zero_duration_runs_until_stopped
         [OF this, of recording_state "''clip.mp4''" "[]" "[frame_pass 7202]"]
  show ?thesis by (simp add: frames_of_def frame_pass_written)
qed


subsection \<open>The retention sweep\<close>

lemma strptime_error: "strptime_Ymd name = Inl e \<Longrightarrow> e = ValueError"
  by (auto simp: strptime_Ymd_def datetime_ymd_def Let_def
           split: list.splits option.splits if_splits)

lemma map_of_remove:
  "map_of (filter (\<lambda>e. fst e \<noteq> name) fs) n = (if n = name then None else map_of fs n)"
  by (induction fs) auto

text \<open>
  The loop over a list of distinct names of entries, each expired one a directory: the
  expired ones are removed and counted, the others stay.
\<close>

lemma sweep_deletes_expired:
  assumes "distinct names" and "set names \<subseteq> fst ` set fs"
    and "\<forall>n\<in>set names. expired c n \<longrightarrow> map_of fs n = Some Dir"
  shows "sweep c names fs k =
           (filter (\<lambda>e. \<not> (fst e \<in> set names \<and> expired c (fst e))) fs,
            Inr (k + length (filter (expired c) names)))"
  using assms
proof (induction names arbitrary: fs k)
  case Nil
  then show ?case by simp
next
  case (Cons name rest)
  show ?case
  proof (cases "expired c name")
    case False
    have "sweep c (name # rest) fs k = sweep c rest fs k"
      using False by (auto simp: expired_def split: sum.splits dest: strptime_error)
    also have "\<dots> = (filter (\<lambda>e. \<not> (fst e \<in> set rest \<and> expired c (fst e))) fs,
            Inr (k + length (filter (expired c) rest)))"
      using Cons.prems by (intro Cons.IH) auto
    also have "filter (\<lambda>e. \<not> (fst e \<in> set rest \<and> expired c (fst e))) fs =
               filter (\<lambda>e. \<not> (fst e \<in> set (name # rest) \<and> expired c (fst e))) fs"
      using False by (intro filter_cong) auto
    finally show ?thesis using False by simp
  next
    case True
    let ?fs = "filter (\<lambda>e. fst e \<noteq> name) fs"
    from True Cons.prems have dir: "map_of fs name = Some Dir" by simp
    from True obtain d where d: "strptime_Ymd name = Inr d" "dt_less d c"
      by (auto simp: expired_def split: sum.splits)
    have "sweep c (name # rest) fs k = sweep c rest ?fs (k + 1)"
      using d dir by (simp add: rmtree_def)
    also have "\<dots> = (filter (\<lambda>e. \<not> (fst e \<in> set rest \<and> expired c (fst e))) ?fs,
            Inr (k + 1 + length (filter (expired c) rest)))"
    proof (intro Cons.IH)
      show "distinct rest" using Cons.prems by simp
      show "set rest \<subseteq> fst ` set ?fs" using Cons.prems by force
      show "\<forall>n\<in>set rest. expired c n \<longrightarrow> map_of ?fs n = Some Dir"
        using Cons.prems by (auto simp: map_of_remove)
    qed
    also have "filter (\<lambda>e. \<not> (fst e \<in> set rest \<and> expired c (fst e))) ?fs =
               filter (\<lambda>e. \<not> (fst e \<in> set (name # rest) \<and> expired c (fst e))) fs"
      using True by (auto intro: filter_cong)
    finally show ?thesis using True by simp
  qed
qed

lemma sweep_archive:
  assumes "distinct (map fst fs)" and "\<forall>(n, k)\<in>set fs. expired c n \<longrightarrow> k = Dir"
  shows "sweep c (map fst fs) fs 0 =
           (filter (\<lambda>e. \<not> expired c (fst e)) fs,
            Inr (length (filter (\<lambda>e. expired c (fst e)) fs)))"
proof -
  have "\<forall>n\<in>set (map fst fs). expired c n \<longrightarrow> map_of fs n = Some Dir"
    using assms by (auto simp: map_of_eq_Some_iff)
  with assms(1)
  have "sweep c (map fst fs) fs 0 =
           (filter (\<lambda>e. \<not> (fst e \<in> set (map fst fs) \<and> expired c (fst e))) fs,
            Inr (0 + length (filter (expired c) (map fst fs))))"
    by (intro sweep_deletes_expired) auto
  moreover have "filter (\<lambda>e. \<not> (fst e \<in> set (map fst fs) \<and> expired c (fst e))) fs =
                 filter (\<lambda>e. \<not> expired c (fst e)) fs"
    by (intro filter_cong) auto
  moreover have "length (filter (expired c) (map fst fs)) =
                 length (filter (\<lambda>e. expired c (fst e)) fs)"
    by (simp add: filter_map comp_def)
  ultimately show ?thesis by simp
qed

lemma sweep_nothing_expired:
  assumes "\<forall>e\<in>set fs. \<not> expired c (fst e)" and "set names \<subseteq> fst ` set fs"
  shows "sweep c names fs k = (fs, Inr k)"
  using assms(2)
proof (induction names)
  case Nil
  then show ?case by simp
next
  case (Cons name rest)
  then have "\<not> expired c name" using assms(1) by auto
  then have "sweep c (name # rest) fs k = sweep c rest fs k"
    by (auto simp: expired_def split: sum.splits dest: strptime_error)
  with Cons show ?case by simp
qed

text \<open>
  C7. On a storage directory whose entries have distinct names and whose expired entries
  are directories, with a clock and an age for which \<^verbatim>\<open>now - timedelta(days=age)\<close> is a
  date, the sweep removes exactly the entries whose name parses as a date strictly before
  the cutoff and returns \<^verbatim>\<open>True\<close> with their number. An entry whose name does not parse
  stays and causes no failure. A second sweep, at the same clock or at any clock for which
  no remaining entry is expired, removes nothing and reports zero.
\<close>

theorem sweep_deletes_expired_groups_idempotent:
  fixes s :: surveillance
  defines "kept \<equiv> (\<lambda>cutoff. filter (\<lambda>e. \<not> expired cutoff (fst e)) (archive s))"
  assumes "distinct (map fst (archive s))"
    and "\<forall>(name, k)\<in>set (archive s). expired cutoff name \<longrightarrow> k = Dir"
    and "cutoff_date now s = Inr cutoff"
  shows "cleanup_old_recordings now s =
           (s\<lparr>archive := kept cutoff\<rparr>,
            Inr (True, Deleted_old_recording_folders
                         (length (filter (\<lambda>e. expired cutoff (fst e)) (archive s))))) \<and>
         (\<forall>e\<in>set (archive s). isl (strptime_Ymd (fst e)) \<longrightarrow> e \<in> set (kept cutoff)) \<and>
         cleanup_old_recordings now (s\<lparr>archive := kept cutoff\<rparr>) =
           (s\<lparr>archive := kept cutoff\<rparr>, Inr (True, Deleted_old_recording_folders 0)) \<and>
         (\<forall>now2 cutoff2.
            cutoff_date now2 s = Inr cutoff2 \<and>
            (\<forall>e\<in>set (kept cutoff). \<not> expired cutoff2 (fst e)) \<longrightarrow>
            cleanup_old_recordings now2 (s\<lparr>archive := kept cutoff\<rparr>) =
              (s\<lparr>archive := kept cutoff\<rparr>, Inr (True, Deleted_old_recording_folders 0)))"
proof -
  let ?s' = "s\<lparr>archive := kept cutoff\<rparr>"
  have first: "cleanup_old_recordings now s =
           (?s', Inr (True, Deleted_old_recording_folders
                         (length (filter (\<lambda>e. expired cutoff (fst e)) (archive s)))))"
    using assms by (simp add: cleanup_old_recordings_def sweep_archive)
  have unparsed: "\<forall>e\<in>set (archive s). isl (strptime_Ymd (fst e)) \<longrightarrow> e \<in> set (kept cutoff)"
    by (auto simp: kept_def expired_def split: sum.splits)
  have again: "cleanup_old_recordings now2 ?s' =
                 (?s', Inr (True, Deleted_old_recording_folders 0))"
    if "cutoff_date now2 s = Inr cutoff2" and "\<forall>e\<in>set (kept cutoff). \<not> expired cutoff2 (fst e)"
    for now2 cutoff2
  proof -
    have "cutoff_date now2 ?s' = Inr cutoff2"
      using that(1) by (simp add: cutoff_date_def)
    moreover have "sweep cutoff2 (map fst (kept cutoff)) (kept cutoff) 0 = (kept cutoff, Inr 0)"
      using that(2) by (intro sweep_nothing_expired) auto
    ultimately show ?thesis by (simp add: cleanup_old_recordings_def)
  qed
  have "\<forall>e\<in>set (kept cutoff). \<not> expired cutoff (fst e)"
    by (simp add: kept_def)
  with again [OF assms(4)] have same: "cleanup_old_recordings now ?s' =
                 (?s', Inr (True, Deleted_old_recording_folders 0))" .
  from first unparsed same again show ?thesis by blast
qed

lemma example_dates:
  "strptime_Ymd ''2024-01-01'' = Inr \<lparr>ordinal = 738886, micros = 0\<rparr>"
  "strptime_Ymd ''2024-01-10'' = Inr \<lparr>ordinal = 738895, micros = 0\<rparr>"
  "strptime_Ymd ''notes.txt'' = Inl ValueError"
  "ymd2ord 2024 1 15 = 738900"
  by (simp_all add: strptime_Ymd_def is_digit_def digit_val_def datetime_ymd_def ymd2ord_def
        days_before_year_def days_before_month_def DAYS_BEFORE_MONTH_def days_in_month_def
        is_leap_def)

theorem sweep_witness:
  "archive (fst (cleanup_old_recordings noon_2024_01_15
                   (idle_state\<lparr>archive := example_archive\<rparr>))) =
     [(''notes.txt'', File), (''2024-01-10'', Dir)] \<and>
   snd (cleanup_old_recordings noon_2024_01_15 (idle_state\<lparr>archive := example_archive\<rparr>)) =
     Inr (True, Deleted_old_recording_folders 1) \<and>
   cleanup_old_recordings noon_2024_01_15
     (idle_state\<lparr>archive := [(''notes.txt'', File), (''2024-01-10'', Dir)]\<rparr>) =
     (idle_state\<lparr>archive := [(''notes.txt'', File), (''2024-01-10'', Dir)]\<rparr>,
      Inr (True, Deleted_old_recording_folders 0))"
proof -
  let ?s = "idle_state\<lparr>archive := example_archive\<rparr>"
  let ?c = "\<lparr>ordinal = 738893, micros = 43200000000\<rparr>"
  have days: "auto_delete_days idle_state = 7"
    by (simp add: idle_state_def SurveillanceSystem_init_def init_camera_closed_form
          initial_fields_def)
  have noon: "noon_2024_01_15 = \<lparr>ordinal = 738900, micros = 43200000000\<rparr>"
    by (simp only: noon_2024_01_15_def example_dates)
  have exp: "expired ?c ''2024-01-01''" "\<not> expired ?c ''2024-01-10''"
    "\<not> expired ?c ''notes.txt''"
    by (simp_all add: expired_def example_dates dt_less_def)
  have names: "distinct (map fst (archive ?s))"
    by (simp add: example_archive_def)
  have dirs: "\<forall>(name, k)\<in>set (archive ?s). expired ?c name \<longrightarrow> k = Dir"
    by (simp add: example_archive_def exp)
  have cutoff: "cutoff_date noon_2024_01_15 ?s = Inr ?c"
    by (simp add: cutoff_date_def timedelta_days_def datetime_sub_def MAXORDINAL_def noon days)
  from sweep_deletes_expired_groups_idempotent [OF names dirs cutoff]
  show ?thesis by (simp add: example_archive_def exp)
qed


end
